theory Spec2Isabelle
  imports Main "HOL-Library.Word"
begin

section \<open>Data model of \<open>straw.hpp\<close>\<close>

text \<open>
  The template \<open>screen<chartype>\<close> is taken at \<open>chartype = char\<close>: a glyph is a
  \<^typ>\<open>char\<close> and the terminal stream \<open>std::cout\<close> is a \<^typ>\<open>string\<close>, the bytes
  written in order. \<open>unsigned\<close> is a 32-bit word, \<open>std::size_t\<close> a 64-bit word and
  \<open>std::uint8_t\<close> an 8-bit word.
\<close>

type_synonym uint8 = "8 word"
type_synonym unsigned = "32 word"
type_synonym size_t = "64 word"

record color =
  r :: uint8
  g :: uint8
  b :: uint8

text \<open>\<open>color(R, G, B)\<close> and the gray constructor \<open>color(A)\<close>.\<close>

definition color3 :: "uint8 \<Rightarrow> uint8 \<Rightarrow> uint8 \<Rightarrow> color" where
  "color3 R G B = \<lparr>r = R, g = G, b = B\<rparr>"

definition color1 :: "uint8 \<Rightarrow> color" where
  "color1 A = \<lparr>r = A, g = A, b = A\<rparr>"

record attribs =
  bg :: color
  fg :: color
  bold :: bool
  underline :: bool

text \<open>
  \<open>attribs(Bg, Fg)\<close> initialises the two colours only. The members \<open>bold\<close> and
  \<open>underline\<close> have no default initialiser, so their values are indeterminate after this
  constructor; the model takes them as the parameters \<open>B0\<close> and \<open>U0\<close>.
\<close>

definition attribs2 :: "color \<Rightarrow> color \<Rightarrow> bool \<Rightarrow> bool \<Rightarrow> attribs" where
  "attribs2 Bg Fg B0 U0 = \<lparr>bg = Bg, fg = Fg, bold = B0, underline = U0\<rparr>"

record cell =
  chr :: char
  attr :: attribs

text \<open>\<open>cell{Chr, Attr}\<close> and \<open>cell{Chr, Bg, Fg}\<close>.\<close>

definition cell2 :: "char \<Rightarrow> attribs \<Rightarrow> cell" where
  "cell2 Chr Attr = \<lparr>chr = Chr, attr = Attr\<rparr>"

definition cell3 :: "char \<Rightarrow> color \<Rightarrow> color \<Rightarrow> bool \<Rightarrow> bool \<Rightarrow> cell" where
  "cell3 Chr Bg Fg B0 U0 = \<lparr>chr = Chr, attr = attribs2 Bg Fg B0 U0\<rparr>"

record screen =
  m_x :: unsigned
  m_y :: unsigned
  m_width :: unsigned
  m_height :: unsigned
  m_front :: "cell list"
  m_back :: "cell list"
  m_cursorX :: unsigned
  m_cursorY :: unsigned
  m_cursorAttribs :: attribs
  m_fillChar :: char

text \<open>
  A failed \<open>assert\<close> aborts the program (\<open>AssertFail\<close>). An access outside a vector or
  outside a span is undefined behaviour in C++; the model stops there with \<open>OutOfBounds\<close>.
\<close>

datatype error = AssertFail | OutOfBounds

definition bindE :: "error + 'a \<Rightarrow> ('a \<Rightarrow> error + 'b) \<Rightarrow> error + 'b" where
  "bindE m f = (case m of Inl e \<Rightarrow> Inl e | Inr v \<Rightarrow> f v)"

section \<open>Terminal output adapter\<close>

text \<open>
  Inserting an \<open>unsigned\<close> into a stream writes its decimal numeral. Inserting a
  \<open>std::uint8_t\<close>, which is \<open>unsigned char\<close>, writes the single character with that
  code.
\<close>

fun decimal :: "nat \<Rightarrow> string" where
  "decimal n = (if n < 10 then [char_of (48 + n)]
                else decimal (n div 10) @ [char_of (48 + n mod 10)])"

declare decimal.simps [simp del]

definition put_unsigned :: "unsigned \<Rightarrow> string" where
  "put_unsigned n = decimal (unat n)"

definition put_uint8 :: "uint8 \<Rightarrow> string" where
  "put_uint8 c = [char_of (unat c)]"

definition ANSI_ESCAPE :: string where
  "ANSI_ESCAPE = [char_of (27::nat), CHR ''['']"

definition ANSI_MOVE :: "unsigned \<Rightarrow> unsigned \<Rightarrow> string" where
  "ANSI_MOVE x y = ANSI_ESCAPE @ put_unsigned (y + 1) @ '';'' @ put_unsigned (x + 1) @ ''H''"

definition ANSI_COLOR_FG :: "color \<Rightarrow> string" where
  "ANSI_COLOR_FG c =
     ANSI_ESCAPE @ ''38;2;'' @ put_uint8 (r c) @ '';'' @ put_uint8 (g c) @ '';'' @ put_uint8 (b c) @ ''m''"

definition ANSI_COLOR_BG :: "color \<Rightarrow> string" where
  "ANSI_COLOR_BG c =
     ANSI_ESCAPE @ ''38;2;'' @ put_uint8 (r c) @ '';'' @ put_uint8 (g c) @ '';'' @ put_uint8 (b c) @ ''m''"

section \<open>Cursor accessors\<close>

definition setcursorxy :: "unsigned \<Rightarrow> unsigned \<Rightarrow> screen \<Rightarrow> screen" where
  "setcursorxy x y s = s\<lparr>m_cursorX := x, m_cursorY := y\<rparr>"

definition getcursorx :: "screen \<Rightarrow> unsigned" where
  "getcursorx s = m_cursorY s"

definition getcursory :: "screen \<Rightarrow> unsigned" where
  "getcursory s = m_cursorY s"

section \<open>Screen buffer\<close>

subsection \<open>Row access\<close>

text \<open>
  A \<open>std::span\<close> over \<open>m_front\<close> or \<open>m_back\<close> is a view: the position in the
  vector where it begins and its number of cells. Neither the span constructor nor its
  \<open>operator[]\<close> checks anything; the model reports the access that leaves the span or the
  vector as \<open>OutOfBounds\<close>.
\<close>

record span =
  span_begin :: nat
  span_size :: nat

text \<open>
  \<open>screen::operator[](std::size_t i)\<close>: the assertion compares \<open>i\<close> with the 32-bit
  product \<open>m_width * m_height\<close>; the span begins at the 64-bit product \<open>i * m_width\<close>.
\<close>

definition operator_index :: "screen \<Rightarrow> size_t \<Rightarrow> error + span" where
  "operator_index s i =
     (if i < ucast (m_width s * m_height s)
      then Inr \<lparr>span_begin = unat (i * ucast (m_width s)), span_size = unat (m_width s)\<rparr>
      else Inl AssertFail)"

text \<open>The position in the vector \<open>v\<close> of element \<open>idx\<close> of a span over \<open>v\<close>.\<close>

definition span_at :: "cell list \<Rightarrow> span \<Rightarrow> nat \<Rightarrow> error + nat" where
  "span_at v sp idx =
     (if idx < span_size sp \<and> span_begin sp + idx < length v
      then Inr (span_begin sp + idx) else Inl OutOfBounds)"

subsection \<open>Mutation primitives\<close>

definition clear :: "char \<Rightarrow> screen \<Rightarrow> screen" where
  "clear c s = s\<lparr>m_front := map (\<lambda>_. cell2 c (m_cursorAttribs s)) (m_front s)\<rparr>"

text \<open>
  \<open>scroll\<close>: the range constructor builds a vector of the cells from position
  \<open>m_width\<close> on, and \<open>std::fill\<close> then overwrites the last \<open>m_width\<close> cells of that
  vector.
\<close>

definition scroll :: "screen \<Rightarrow> error + screen" where
  "scroll s =
     (let s1 = s\<lparr>m_cursorY := m_height s - 1\<rparr>;
          w = unat (m_width s1)
      in if length (m_front s1) < w then Inl OutOfBounds
         else let s2 = s1\<lparr>m_front := drop w (m_front s1)\<rparr>
              in if length (m_front s2) < w then Inl OutOfBounds
                 else Inr (s2\<lparr>m_front := take (length (m_front s2) - w) (m_front s2) @
                                 replicate w (cell2 (m_fillChar s2) (m_cursorAttribs s2))\<rparr>))"

definition setc :: "unsigned \<Rightarrow> unsigned \<Rightarrow> char \<Rightarrow> screen \<Rightarrow> error + screen" where
  "setc x y c s =
     (if \<not> x < m_width s then Inl AssertFail
      else if \<not> y < m_height s then Inl AssertFail
      else let i = unat (x + y * m_width s)
           in if i < length (m_front s)
              then Inr (s\<lparr>m_front := (m_front s)[i := cell2 c (m_cursorAttribs s)]\<rparr>)
              else Inl OutOfBounds)"

subsection \<open>Character writing\<close>

definition newline :: char where
  "newline = CHR 0x0A"

definition putc :: "char \<Rightarrow> screen \<Rightarrow> error + screen" where
  "putc c s =
     bindE (if m_cursorY s = m_height s then scroll s else Inr s) (\<lambda>s1.
     bindE (if c = newline
            then Inr (s1\<lparr>m_cursorX := 0, m_cursorY := m_cursorY s1 + 1\<rparr>)
            else bindE (operator_index s1 (ucast (m_cursorY s1))) (\<lambda>sp.
                 bindE (span_at (m_front s1) sp (unat (m_cursorX s1))) (\<lambda>i.
                 Inr (s1\<lparr>m_front := (m_front s1)[i := cell2 c (m_cursorAttribs s1)],
                         m_cursorX := m_cursorX s1 + 1\<rparr>)))) (\<lambda>s2.
     Inr (if m_cursorX s2 = m_width s2
          then s2\<lparr>m_cursorY := m_cursorY s2 + 1, m_cursorX := 0\<rparr>
          else s2)))"

fun puts :: "string \<Rightarrow> screen \<Rightarrow> error + screen" where
  "puts [] s = Inr s"
| "puts (c # cs) s = bindE (putc c s) (puts cs)"

subsection \<open>Full redraw\<close>

text \<open>
  The range-based \<open>for\<close> over a row: \<open>n\<close> cells of the vector \<open>v\<close> from position
  \<open>p\<close> on, with the attributes emitted last threaded through.
\<close>

fun redraw_cells :: "cell list \<Rightarrow> nat \<Rightarrow> nat \<Rightarrow> attribs \<Rightarrow> error + (string \<times> attribs)" where
  "redraw_cells v p 0 cattr = Inr ([], cattr)"
| "redraw_cells v p (Suc n) cattr =
     (if p < length v
      then let c = v ! p;
               o1 = (if attr c \<noteq> cattr
                     then ANSI_COLOR_FG (fg (attr c)) @ ANSI_COLOR_BG (bg (attr c)) else []);
               cattr1 = (if attr c \<noteq> cattr then attr c else cattr)
           in bindE (redraw_cells v (p + 1) n cattr1) (\<lambda>(o2, cattr2).
              Inr (o1 @ [chr c] @ o2, cattr2))
      else Inl OutOfBounds)"

function redraw_rows :: "screen \<Rightarrow> unsigned \<Rightarrow> attribs \<Rightarrow> error + string" where
  "redraw_rows s y cattr =
     (if y < m_height s
      then bindE (operator_index s (ucast y)) (\<lambda>sp.
           bindE (redraw_cells (m_front s) (span_begin sp) (span_size sp) cattr) (\<lambda>(o1, cattr1).
           bindE (redraw_rows s (y + 1) cattr1) (\<lambda>o2.
           Inr (ANSI_MOVE 0 y @ o1 @ o2))))
      else Inr [])"
  by pat_completeness auto
termination
  by (relation "measure (\<lambda>(s, y, cattr). unat (m_height s) - unat y)")
     (simp, simp, unat_arith)

declare redraw_rows.simps [simp del]

definition redraw :: "screen \<Rightarrow> error + (string \<times> screen)" where
  "redraw s =
     bindE (operator_index s 0) (\<lambda>sp0.
     bindE (span_at (m_front s) sp0 0) (\<lambda>i0.
     bindE (redraw_rows s 0 (attr (m_front s ! i0))) (\<lambda>out.
     Inr (out, s\<lparr>m_back := m_front s\<rparr>))))"

subsection \<open>Incremental flush\<close>

text \<open>
  \<open>std::equal\<close> on the two rows: \<open>n\<close> cells of \<open>bk\<close> from \<open>bp\<close> against \<open>n\<close>
  cells of \<open>fr\<close> from \<open>fp\<close>, stopping at the first difference.
\<close>

fun span_equal :: "cell list \<Rightarrow> nat \<Rightarrow> cell list \<Rightarrow> nat \<Rightarrow> nat \<Rightarrow> error + bool" where
  "span_equal bk bp fr fp 0 = Inr True"
| "span_equal bk bp fr fp (Suc n) =
     (if bp < length bk \<and> fp < length fr
      then (if bk ! bp = fr ! fp then span_equal bk (bp + 1) fr (fp + 1) n else Inr False)
      else Inl OutOfBounds)"

function flush_cells :: "screen \<Rightarrow> unsigned \<Rightarrow> span \<Rightarrow> span \<Rightarrow> unsigned \<Rightarrow> error + string" where
  "flush_cells s y backspan frontspan x =
     (if x < m_width s
      then bindE (span_at (m_front s) frontspan (unat x)) (\<lambda>fi.
           bindE (span_at (m_back s) backspan (unat x)) (\<lambda>bi.
           let fc = m_front s ! fi; bc = m_back s ! bi
           in if fc = bc then flush_cells s y backspan frontspan (x + 1)
              else bindE (flush_cells s y backspan frontspan (x + 1)) (\<lambda>o2.
                   Inr (ANSI_MOVE x y @
                        (if attr fc \<noteq> attr bc
                         then ANSI_COLOR_FG (fg (attr fc)) @ ANSI_COLOR_BG (bg (attr fc))
                         else []) @
                        [chr fc] @ o2))))
      else Inr [])"
  by pat_completeness auto
termination
  by (relation "measure (\<lambda>(s, y, backspan, frontspan, x). unat (m_width s) - unat x)")
     (simp, simp, unat_arith, simp, unat_arith)

declare flush_cells.simps [simp del]

function flush_rows :: "screen \<Rightarrow> unsigned \<Rightarrow> error + string" where
  "flush_rows s y =
     (if y < m_height s
      then let backspan = \<lparr>span_begin = unat (y * m_width s), span_size = unat (m_width s)\<rparr>
           in bindE (operator_index s (ucast y)) (\<lambda>frontspan.
              bindE (span_equal (m_back s) (span_begin backspan)
                                (m_front s) (span_begin frontspan) (unat (m_width s))) (\<lambda>same.
              if same then flush_rows s (y + 1)
              else bindE (flush_cells s y backspan frontspan 0) (\<lambda>o1.
                   bindE (flush_rows s (y + 1)) (\<lambda>o2.
                   Inr (o1 @ o2)))))
      else Inr [])"
  by pat_completeness auto
termination
  by (relation "measure (\<lambda>(s, y). unat (m_height s) - unat y)")
     (simp, simp, unat_arith, simp, unat_arith)

declare flush_rows.simps [simp del]

text \<open>\<open>flush\<close> assigns to no member: the screen it leaves is the one it was given.\<close>

definition flush :: "screen \<Rightarrow> error + (string \<times> screen)" where
  "flush s = bindE (flush_rows s 0) (\<lambda>out. Inr (out, s))"

subsection \<open>Construction\<close>

text \<open>
  The seven-parameter constructor. \<open>B1\<close>, \<open>U1\<close> are the indeterminate flags of the
  fill cell \<open>cell{C, B, F}\<close>, and \<open>B2\<close>, \<open>U2\<close> those of \<open>m_cursorAttribs(B, F)\<close>.
\<close>

definition make_screen ::
  "unsigned \<Rightarrow> unsigned \<Rightarrow> unsigned \<Rightarrow> unsigned \<Rightarrow> char \<Rightarrow> color \<Rightarrow> color \<Rightarrow>
   bool \<Rightarrow> bool \<Rightarrow> bool \<Rightarrow> bool \<Rightarrow> error + (string \<times> screen)" where
  "make_screen X Y W H C B F B1 U1 B2 U2 =
     (let front = replicate (unat (W * H)) (cell3 C B F B1 U1)
      in redraw \<lparr>m_x = X, m_y = Y, m_width = W, m_height = H,
                 m_front = front, m_back = front,
                 m_cursorX = 0, m_cursorY = 0,
                 m_cursorAttribs = attribs2 B F B2 U2, m_fillChar = C\<rparr>)"

text \<open>The five-parameter constructor: black background, white foreground.\<close>

definition make_screen5 ::
  "unsigned \<Rightarrow> unsigned \<Rightarrow> unsigned \<Rightarrow> unsigned \<Rightarrow> char \<Rightarrow>
   bool \<Rightarrow> bool \<Rightarrow> bool \<Rightarrow> bool \<Rightarrow> error + (string \<times> screen)" where
  "make_screen5 X Y W H C B1 U1 B2 U2 =
     make_screen X Y W H C (color3 0 0 0) (color3 255 255 255) B1 U1 B2 U2"

subsection \<open>The documented cursor bounds\<close>

text \<open>
  The specification's cursor invariant, \<open>0 \<le> cursor.x < width\<close> and
  \<open>0 \<le> cursor.y \<le> height\<close>. It is no part of the source, which never checks it.
\<close>

definition spec_cursor_bounds :: "screen \<Rightarrow> bool" where
  "spec_cursor_bounds s \<longleftrightarrow> m_cursorX s < m_width s \<and> m_cursorY s \<le> m_height s"

subsection \<open>The grid invariant\<close>

text \<open>
  Both grids hold \<open>width * height\<close> cells, the width is not zero and the product does not
  wrap around in 32 bits. Every screen that the constructor returns is in this state
  (\<open>make_screen_grid_inv\<close> below).
\<close>

definition grid_inv :: "screen \<Rightarrow> bool" where
  "grid_inv s \<longleftrightarrow>
     0 < m_width s \<and> unat (m_width s) * unat (m_height s) < 2 ^ 32 \<and>
     length (m_front s) = unat (m_width s) * unat (m_height s) \<and>
     length (m_back s) = unat (m_width s) * unat (m_height s)"

subsection \<open>Two concrete screens\<close>

text \<open>
  The screen that \<open>screen<char>(0, 0, 3, 2, '.')\<close> constructs, and that screen after
  \<open>setc(1, 1, 'x')\<close>.
\<close>

definition example_screen :: screen where
  "example_screen =
     \<lparr>m_x = 0, m_y = 0, m_width = 3, m_height = 2,
      m_front = replicate 6 (cell3 (CHR ''.'') (color3 0 0 0) (color3 255 255 255) False False),
      m_back = replicate 6 (cell3 (CHR ''.'') (color3 0 0 0) (color3 255 255 255) False False),
      m_cursorX = 0, m_cursorY = 0,
      m_cursorAttribs = attribs2 (color3 0 0 0) (color3 255 255 255) False False,
      m_fillChar = CHR ''.''\<rparr>"

definition example_dirty :: screen where
  "example_dirty =
     example_screen\<lparr>m_front := (m_front example_screen)[4 := cell2 (CHR ''x'') (m_cursorAttribs example_screen)]\<rparr>"

section \<open>Basic facts\<close>

lemma bindE_Inr [simp]: "bindE (Inr v) f = f v"
  by (simp add: bindE_def)

lemma bindE_Inl [simp]: "bindE (Inl e) f = Inl e"
  by (simp add: bindE_def)

lemma bindE_eq_Inr: "bindE m f = Inr w \<longleftrightarrow> (\<exists>v. m = Inr v \<and> f v = Inr w)"
  by (cases m) simp_all

lemma ANSI_COLOR_BG_is_FG: "ANSI_COLOR_BG c = ANSI_COLOR_FG c"
  by (simp add: ANSI_COLOR_BG_def ANSI_COLOR_FG_def)

lemma put_uint8_single: "length (put_uint8 c) = 1"
  by (simp add: put_uint8_def)

lemma clear_length: "length (m_front (clear c s)) = length (m_front s)"
  by (simp add: clear_def)

lemma setc_length:
  assumes "setc x y c s = Inr s'"
  shows "length (m_front s') = length (m_front s) \<and> m_back s' = m_back s"
  using assms by (auto simp: setc_def Let_def split: if_splits)

lemma scroll_length:
  assumes "scroll s = Inr s'"
  shows "length (m_front s') = length (m_front s) - unat (m_width s)"
  using assms by (auto simp: scroll_def Let_def split: if_splits)

lemma scroll_front:
  assumes "scroll s = Inr s'"
  shows "m_front s' =
         take (length (m_front s) - 2 * unat (m_width s)) (drop (unat (m_width s)) (m_front s)) @
         replicate (unat (m_width s)) (cell2 (m_fillChar s) (m_cursorAttribs s))"
  using assms by (auto simp: scroll_def Let_def mult_2 split: if_splits)

lemma redraw_result:
  assumes "redraw s = Inr (out, s')"
  shows "s' = s\<lparr>m_back := m_front s\<rparr>"
  using assms by (auto simp: redraw_def bindE_eq_Inr)

lemma flush_result:
  assumes "flush s = Inr (out, s')"
  shows "s' = s"
  using assms by (auto simp: flush_def bindE_eq_Inr)

lemma flush_again:
  assumes "flush s = Inr (out, s')"
  shows "flush s' = Inr (out, s')"
  using assms flush_result [OF assms] by simp

lemma operator_index_assert:
  "operator_index s i = Inl AssertFail \<longleftrightarrow> \<not> i < ucast (m_width s * m_height s)"
  by (simp add: operator_index_def)

lemma unat_next:
  fixes y h :: unsigned
  assumes "y < h"
  shows "unat (y + 1) = Suc (unat y)"
  using assms by unat_arith

lemma example_screen_made:
  "map_sum id snd (make_screen5 0 0 3 2 (CHR ''.'') False False False False) = Inr example_screen"
  by code_simp

lemma example_dirty_made: "setc 1 1 (CHR ''x'') example_screen = Inr example_dirty"
  by code_simp

lemma putc_keeps_length:
  assumes "putc c s = Inr s'" and "m_cursorY s \<noteq> m_height s"
  shows "length (m_front s') = length (m_front s) \<and> m_back s' = m_back s"
  using assms
  by (auto simp: putc_def bindE_eq_Inr split: if_splits)

subsection \<open>Word arithmetic of the row offsets\<close>

lemma unat_lt_32:
  fixes a :: unsigned
  shows "unat a < 2 ^ 32"
  using unsigned_less [of a, where 'a = nat] by simp

lemma unat_ucast_64:
  fixes a :: unsigned
  shows "unat (ucast a :: size_t) = unat a"
proof -
  have "unat a < 2 ^ 64"
    using unat_lt_32 [of a] by (rule less_trans) simp
  then show ?thesis
    by (simp add: unsigned_ucast_eq take_bit_nat_eq_self)
qed

lemma ucast_less_64:
  fixes a c :: unsigned
  shows "(ucast a :: size_t) < ucast c \<longleftrightarrow> a < c"
  by (simp add: word_less_nat_alt unat_ucast_64)

lemma unat_mul_32:
  fixes w h :: unsigned
  assumes "unat w * unat h < 2 ^ 32"
  shows "unat (w * h) = unat w * unat h"
  using assms by (simp add: unat_mult_lem [THEN iffD1])

lemma unat_mul_64:
  fixes y w :: unsigned
  shows "unat ((ucast y :: size_t) * ucast w) = unat y * unat w"
proof -
  have "unat y < 2 ^ 32" "unat w < 2 ^ 32"
    by (rule unat_lt_32)+
  then have "unat y * unat w < 2 ^ 32 * 2 ^ 32"
    by (meson mult_strict_mono' zero_le)
  then have "unat (ucast y :: size_t) * unat (ucast w :: size_t) < 2 ^ LENGTH(64)"
    by (simp add: unat_ucast_64)
  then have "unat ((ucast y :: size_t) * ucast w) = unat (ucast y :: size_t) * unat (ucast w :: size_t)"
    by (simp add: unat_mult_lem [THEN iffD1])
  then show ?thesis by (simp add: unat_ucast_64)
qed

lemma operator_index_row:
  assumes "0 < m_width s" and "unat (m_width s) * unat (m_height s) < 2 ^ 32" and "y < m_height s"
  shows "operator_index s (ucast y) =
         Inr \<lparr>span_begin = unat y * unat (m_width s), span_size = unat (m_width s)\<rparr>"
proof -
  have a: "unat y < unat (m_height s)" using assms(3) by (simp add: word_less_nat_alt)
  have "0 < unat (m_width s)" using assms(1) by (simp add: word_less_nat_alt)
  then have b: "unat (m_height s) \<le> unat (m_width s) * unat (m_height s)"
    by simp
  from a b have "unat y < unat (m_width s) * unat (m_height s)"
    by (rule less_le_trans)
  then have "unat y < unat (m_width s * m_height s)"
    using assms(2) by (simp add: unat_mul_32)
  then have "y < m_width s * m_height s" by (simp add: word_less_nat_alt)
  then show ?thesis
    by (simp add: operator_index_def ucast_less_64 unat_mul_64)
qed


subsection \<open>Writing glyphs into a row\<close>

lemma putc_glyph:
  assumes w: "0 < m_width s"
    and nov: "unat (m_width s) * unat (m_height s) < 2 ^ 32"
    and y: "m_cursorY s < m_height s"
    and x: "m_cursorX s < m_width s"
    and row: "(unat (m_cursorY s) + 1) * unat (m_width s) \<le> length (m_front s)"
    and c: "c \<noteq> newline"
  shows "putc c s =
         Inr (if m_cursorX s + 1 = m_width s
              then s\<lparr>m_front := (m_front s)[unat (m_cursorY s) * unat (m_width s) + unat (m_cursorX s)
                                    := cell2 c (m_cursorAttribs s)],
                     m_cursorX := 0, m_cursorY := m_cursorY s + 1\<rparr>
              else s\<lparr>m_front := (m_front s)[unat (m_cursorY s) * unat (m_width s) + unat (m_cursorX s)
                                    := cell2 c (m_cursorAttribs s)],
                     m_cursorX := m_cursorX s + 1\<rparr>)"
proof -
  have ne: "m_cursorY s \<noteq> m_height s" using y by auto
  have xn: "unat (m_cursorX s) < unat (m_width s)" using x by (simp add: word_less_nat_alt)
  then have inb: "unat (m_cursorY s) * unat (m_width s) + unat (m_cursorX s) < length (m_front s)"
    using row by simp
  show ?thesis
    using ne c xn inb
    by (simp add: putc_def operator_index_row [OF w nov y] span_at_def)
qed


lemma puts_row:
  assumes "0 < m_width s"
    and "unat (m_width s) * unat (m_height s) < 2 ^ 32"
    and "m_cursorY s < m_height s"
    and "(unat (m_cursorY s) + 1) * unat (m_width s) \<le> length (m_front s)"
    and "unat (m_cursorX s) + length cs = unat (m_width s)"
    and "cs \<noteq> []"
    and "newline \<notin> set cs"
  shows "puts cs s =
         Inr (s\<lparr>m_front := take (unat (m_cursorY s) * unat (m_width s) + unat (m_cursorX s)) (m_front s) @
                             map (\<lambda>c. cell2 c (m_cursorAttribs s)) cs @
                             drop ((unat (m_cursorY s) + 1) * unat (m_width s)) (m_front s),
                 m_cursorX := 0, m_cursorY := m_cursorY s + 1\<rparr>)"
  using assms
proof (induction cs arbitrary: s)
  case Nil
  then show ?case by simp
next
  case (Cons c cs)
  let ?p = "unat (m_cursorY s) * unat (m_width s) + unat (m_cursorX s)"
  let ?v = "cell2 c (m_cursorAttribs s)"
  have xw: "m_cursorX s < m_width s"
    using Cons.prems(5) by (simp add: word_less_nat_alt)
  have cn: "c \<noteq> newline" using Cons.prems(7) by auto
  have pl: "?p < length (m_front s)"
    using Cons.prems(4,5) by simp
  note step = putc_glyph [OF Cons.prems(1) Cons.prems(2) Cons.prems(3) xw Cons.prems(4) cn]
  have x1: "unat (m_cursorX s + 1) = Suc (unat (m_cursorX s))"
    using xw by (rule unat_next)
  show ?case
  proof (cases cs)
    case Nil
    then have "Suc (unat (m_cursorX s)) = unat (m_width s)"
      using Cons.prems(5) by simp
    then have last: "m_cursorX s + 1 = m_width s"
      using x1 by (metis word_unat_eq_iff)
    have "?p + 1 = (unat (m_cursorY s) + 1) * unat (m_width s)"
      using \<open>Suc (unat (m_cursorX s)) = unat (m_width s)\<close> by simp
    then have "(m_front s)[?p := ?v] =
               take ?p (m_front s) @ ?v # drop ((unat (m_cursorY s) + 1) * unat (m_width s)) (m_front s)"
      using pl by (metis Suc_eq_plus1 upd_conv_take_nth_drop)
    then show ?thesis
      using Nil step last by simp
  next
    case (Cons c' cs')
    let ?s1 = "s\<lparr>m_front := (m_front s)[?p := ?v], m_cursorX := m_cursorX s + 1\<rparr>"
    have nl: "m_cursorX s + 1 \<noteq> m_width s"
      using Cons Cons.prems(5) x1 by auto
    have s1: "putc c s = Inr ?s1"
      using step nl by simp
    have ih: "puts cs ?s1 =
              Inr (?s1\<lparr>m_front := take (unat (m_cursorY ?s1) * unat (m_width ?s1) + unat (m_cursorX ?s1)) (m_front ?s1) @
                             map (\<lambda>c. cell2 c (m_cursorAttribs ?s1)) cs @
                             drop ((unat (m_cursorY ?s1) + 1) * unat (m_width ?s1)) (m_front ?s1),
                 m_cursorX := 0, m_cursorY := m_cursorY ?s1 + 1\<rparr>)"
      using Cons.prems x1 Cons by (intro Cons.IH) simp_all
    have t: "take (Suc ?p) ((m_front s)[?p := ?v]) = take ?p (m_front s) @ [?v]"
      using pl by (simp add: take_Suc_conv_app_nth)
    have "?p < (unat (m_cursorY s) + 1) * unat (m_width s)"
      using Cons.prems(5) by simp
    then have d: "drop ((unat (m_cursorY s) + 1) * unat (m_width s)) ((m_front s)[?p := ?v]) =
             drop ((unat (m_cursorY s) + 1) * unat (m_width s)) (m_front s)"
      by (rule drop_update_cancel)
    show ?thesis
      using s1 ih t d x1 by simp
  qed
qed


text \<open>
  A full row: with the width at least 1, \<open>y < height\<close> and row \<open>y\<close> inside the front
  grid, \<open>puts\<close> of exactly \<open>width\<close> glyphs, none of them the newline, with the cursor at
  \<open>(0, y)\<close> returns with the cursor at \<open>(0, y + 1)\<close> and with row \<open>y\<close> holding the
  glyphs in order, each with the cursor attributes; nothing else changes. Row \<open>y\<close> is
  inside the front grid for every \<open>y < height\<close> as long as the grid holds
  \<open>width * height\<close> cells.
\<close>

lemma puts_full_row:
  assumes "0 < m_width s"
    and "unat (m_width s) * unat (m_height s) < 2 ^ 32"
    and "y < m_height s"
    and "(unat y + 1) * unat (m_width s) \<le> length (m_front s)"
    and "m_cursorX s = 0" and "m_cursorY s = y"
    and "length cs = unat (m_width s)"
    and "newline \<notin> set cs"
  shows "puts cs s =
         Inr (s\<lparr>m_front := take (unat y * unat (m_width s)) (m_front s) @
                             map (\<lambda>c. cell2 c (m_cursorAttribs s)) cs @
                             drop ((unat y + 1) * unat (m_width s)) (m_front s),
                 m_cursorX := 0, m_cursorY := y + 1\<rparr>)"
proof -
  have "0 < unat (m_width s)" using assms(1) by (simp add: word_less_nat_alt)
  then have ne: "cs \<noteq> []" using assms(7) by auto
  have len: "unat (m_cursorX s) + length cs = unat (m_width s)"
    using assms(5,7) by simp
  have yy: "m_cursorY s < m_height s" using assms(3,6) by simp
  have row: "(unat (m_cursorY s) + 1) * unat (m_width s) \<le> length (m_front s)"
    using assms(4,6) by simp
  show ?thesis
    using puts_row [OF assms(1) assms(2) yy row len ne assms(8)] assms(5,6) by simp
qed

lemma puts_full_row_example:
  "map_sum id (\<lambda>s'. (m_cursorX s', m_cursorY s', map chr (m_front s')))
     (puts ''abc'' (setcursorxy 0 1 example_screen)) = Inr (0, 2, ''...abc'')"
proof -
  let ?s = "setcursorxy 0 1 example_screen"
  have h1: "0 < m_width ?s" by (simp add: setcursorxy_def example_screen_def)
  have h2: "unat (m_width ?s) * unat (m_height ?s) < 2 ^ 32"
    by (simp add: setcursorxy_def example_screen_def)
  have h3: "1 < m_height ?s" by (simp add: setcursorxy_def example_screen_def)
  have h4: "(unat (1 :: unsigned) + 1) * unat (m_width ?s) \<le> length (m_front ?s)"
    by (simp add: setcursorxy_def example_screen_def)
  have h5: "m_cursorX ?s = 0" by (simp add: setcursorxy_def)
  have h6: "m_cursorY ?s = 1" by (simp add: setcursorxy_def)
  have h7: "length ''abc'' = unat (m_width ?s)" by (simp add: setcursorxy_def example_screen_def)
  have h8: "newline \<notin> set ''abc''" by (simp add: newline_def)
  show ?thesis
    unfolding puts_full_row [OF h1 h2 h3 h4 h5 h6 h7 h8]
    by code_simp
qed

subsection \<open>Flush returns on every screen within the grid invariant\<close>

lemma row_in_grid:
  fixes y h w :: unsigned
  assumes "y < h"
  shows "(unat y + 1) * unat w \<le> unat w * unat h"
proof -
  have "unat y + 1 \<le> unat h" using assms by (simp add: word_less_nat_alt)
  then have "(unat y + 1) * unat w \<le> unat h * unat w" by (rule mult_le_mono1)
  then show ?thesis by (simp add: mult.commute)
qed

lemma span_equal_total:
  assumes "bp + n \<le> length bk" and "fp + n \<le> length fr"
  shows "\<exists>same. span_equal bk bp fr fp n = Inr same"
  using assms by (induction n arbitrary: bp fp) auto

lemma flush_cells_total:
  assumes fs: "span_size fsp = unat (m_width s)"
    and fb: "span_begin fsp + unat (m_width s) \<le> length (m_front s)"
    and bs: "span_size bsp = unat (m_width s)"
    and bb: "span_begin bsp + unat (m_width s) \<le> length (m_back s)"
  shows "\<exists>out. flush_cells s y bsp fsp x = Inr out"
proof (induction k \<equiv> "unat (m_width s) - unat x" arbitrary: x)
  case 0
  then have "\<not> x < m_width s" by (simp add: word_less_nat_alt)
  then show ?case by (subst flush_cells.simps) simp
next
  case (Suc k)
  then have xn: "unat x < unat (m_width s)" by simp
  then have xw: "x < m_width s" by (simp add: word_less_nat_alt)
  have "unat (x + 1) = Suc (unat x)" using xw by (rule unat_next)
  then have "k = unat (m_width s) - unat (x + 1)" using Suc.hyps(2) by simp
  then have "\<exists>out. flush_cells s y bsp fsp (x + 1) = Inr out" by (rule Suc.hyps(1))
  then obtain o2 where o2: "flush_cells s y bsp fsp (x + 1) = Inr o2" ..
  have f: "span_at (m_front s) fsp (unat x) = Inr (span_begin fsp + unat x)"
    using xn fs fb by (simp add: span_at_def)
  have b: "span_at (m_back s) bsp (unat x) = Inr (span_begin bsp + unat x)"
    using xn bs bb by (simp add: span_at_def)
  show ?case
    using xw f b o2 by (subst flush_cells.simps) (simp add: Let_def)
qed

lemma flush_rows_total:
  assumes "grid_inv s"
  shows "\<exists>out. flush_rows s y = Inr out"
proof (induction k \<equiv> "unat (m_height s) - unat y" arbitrary: y)
  case 0
  then have "\<not> y < m_height s" by (simp add: word_less_nat_alt)
  then show ?case by (subst flush_rows.simps) simp
next
  case (Suc k)
  from assms have w: "0 < m_width s"
    and nov: "unat (m_width s) * unat (m_height s) < 2 ^ 32"
    and lf: "length (m_front s) = unat (m_width s) * unat (m_height s)"
    and lb: "length (m_back s) = unat (m_width s) * unat (m_height s)"
    by (simp_all add: grid_inv_def)
  from Suc.hyps(2) have "unat y < unat (m_height s)" by simp
  then have yh: "y < m_height s" by (simp add: word_less_nat_alt)
  have "unat (y + 1) = Suc (unat y)" using yh by (rule unat_next)
  then have "k = unat (m_height s) - unat (y + 1)" using Suc.hyps(2) by simp
  then have "\<exists>out. flush_rows s (y + 1) = Inr out" by (rule Suc.hyps(1))
  then obtain o2 where o2: "flush_rows s (y + 1) = Inr o2" ..
  let ?bsp = "\<lparr>span_begin = unat (y * m_width s), span_size = unat (m_width s)\<rparr>"
  let ?fsp = "\<lparr>span_begin = unat y * unat (m_width s), span_size = unat (m_width s)\<rparr>"
  have row: "(unat y + 1) * unat (m_width s) \<le> unat (m_width s) * unat (m_height s)"
    using yh by (rule row_in_grid)
  then have "unat y * unat (m_width s) < 2 ^ 32" using nov by simp
  then have yw: "unat (y * m_width s) = unat y * unat (m_width s)"
    by (rule unat_mul_32)
  have oi: "operator_index s (ucast y) = Inr ?fsp"
    using w nov yh by (rule operator_index_row)
  have "\<exists>same. span_equal (m_back s) (unat y * unat (m_width s)) (m_front s)
                 (unat y * unat (m_width s)) (unat (m_width s)) = Inr same"
    using row lf lb by (intro span_equal_total) simp_all
  then obtain same where se: "span_equal (m_back s) (unat y * unat (m_width s)) (m_front s)
                 (unat y * unat (m_width s)) (unat (m_width s)) = Inr same" ..
  have "\<exists>o1. flush_cells s y ?bsp ?fsp 0 = Inr o1"
    using row lf lb yw by (intro flush_cells_total) simp_all
  then obtain o1 where fc: "flush_cells s y ?bsp ?fsp 0 = Inr o1" ..
  show ?case
    using yh oi se fc o2 yw by (subst flush_rows.simps) (simp add: Let_def)
qed

lemma flush_total:
  assumes "grid_inv s"
  shows "\<exists>out. flush s = Inr (out, s)"
  using flush_rows_total [OF assms, of 0] by (auto simp: flush_def)

subsection \<open>Construction establishes the grid invariant\<close>

lemma redraw_cells_in_range:
  assumes "redraw_cells v p n cattr = Inr res" and "0 < n"
  shows "p + n \<le> length v"
  using assms
proof (induction n arbitrary: p cattr res)
  case 0
  then show ?case by simp
next
  case (Suc n)
  from Suc.prems(1) have pl: "p < length v"
    by (simp split: if_splits)
  show ?case
  proof (cases n)
    case 0
    then show ?thesis using pl by simp
  next
    case (Suc m)
    from Suc.prems(1) pl obtain cattr1 res1 where "redraw_cells v (p + 1) n cattr1 = Inr res1"
      by (auto simp: Let_def bindE_eq_Inr)
    then have "p + 1 + n \<le> length v"
      using Suc by (intro Suc.IH) simp_all
    then show ?thesis by simp
  qed
qed

lemma redraw_rows_in_range:
  assumes "redraw_rows s y cattr = Inr out" and "y < m_height s" and "0 < m_width s"
  shows "unat (m_height s) * unat (m_width s) \<le> length (m_front s)"
  using assms
proof (induction k \<equiv> "unat (m_height s) - unat y" arbitrary: y cattr out)
  case 0
  then show ?case by (simp add: word_less_nat_alt)
next
  case (Suc k)
  have y1: "unat (y + 1) = Suc (unat y)" using Suc.prems(2) by (rule unat_next)
  from Suc.prems(1) Suc.prems(2) obtain sp o1 cattr1 o2 where
    oi: "operator_index s (ucast y) = Inr sp"
    and rc: "redraw_cells (m_front s) (span_begin sp) (span_size sp) cattr = Inr (o1, cattr1)"
    and rr: "redraw_rows s (y + 1) cattr1 = Inr o2"
    by (subst (asm) redraw_rows.simps) (auto simp: bindE_eq_Inr)
  from oi have sp: "sp = \<lparr>span_begin = unat y * unat (m_width s), span_size = unat (m_width s)\<rparr>"
    by (auto simp: operator_index_def unat_mul_64 split: if_splits)
  show ?case
  proof (cases "y + 1 < m_height s")
    case True
    have "k = unat (m_height s) - unat (y + 1)" using Suc.hyps(2) y1 by simp
    then show ?thesis using rr True Suc.prems(3) by (rule Suc.hyps(1))
  next
    case False
    then have "unat (m_height s) = Suc (unat y)"
      using Suc.prems(2) y1 by (simp add: word_less_nat_alt)
    moreover have "unat y * unat (m_width s) + unat (m_width s) \<le> length (m_front s)"
      using redraw_cells_in_range [OF rc] sp Suc.prems(3) by (simp add: word_less_nat_alt)
    ultimately show ?thesis by simp
  qed
qed

lemma make_screen_grid_inv:
  assumes "make_screen X Y W H C B F B1 U1 B2 U2 = Inr (out, s)"
  shows "grid_inv s \<and> m_width s = W \<and> m_height s = H \<and> m_back s = m_front s \<and>
         m_cursorX s = 0 \<and> m_cursorY s = 0"
proof -
  let ?front = "replicate (unat (W * H)) (cell3 C B F B1 U1)"
  let ?s0 = "\<lparr>m_x = X, m_y = Y, m_width = W, m_height = H, m_front = ?front, m_back = ?front,
              m_cursorX = 0, m_cursorY = 0, m_cursorAttribs = attribs2 B F B2 U2, m_fillChar = C\<rparr>"
  from assms have rd: "redraw ?s0 = Inr (out, s)"
    by (simp add: make_screen_def Let_def)
  then have s: "s = ?s0\<lparr>m_back := m_front ?s0\<rparr>" by (rule redraw_result)
  from rd obtain sp0 i0 where "operator_index ?s0 0 = Inr sp0"
    and rr: "redraw_rows ?s0 0 (attr (m_front ?s0 ! i0)) = Inr out"
    by (auto simp: redraw_def bindE_eq_Inr)
  then have nz: "0 < W * H"
    by (auto simp: operator_index_def word_less_nat_alt unat_ucast_64 split: if_splits)
  then have w: "0 < W" and h: "0 < H"
    by (auto simp: word_greater_zero_iff)
  have "unat H * unat W \<le> length ?front"
    using redraw_rows_in_range [OF rr] w h by simp
  then have le: "unat W * unat H \<le> unat (W * H)" by (simp add: mult.commute)
  have "unat (W * H) < 2 ^ 32" by (rule unat_lt_32)
  with le have nov: "unat W * unat H < 2 ^ 32" by simp
  then have "unat (W * H) = unat W * unat H" by (rule unat_mul_32)
  then show ?thesis
    using w nov s by (simp add: grid_inv_def)
qed


section \<open>The claims\<close>

text \<open>
  C1. Claimed: the front grid and the back grid hold exactly \<open>width * height\<close> cells
  after every operation, \<open>scroll\<close> included. Here \<open>scroll\<close> is run on a freshly
  constructed screen of width 3 and height 2: the front grid had 6 cells before it and has 3
  after it, while \<open>width * height\<close> is still 6.
\<close>

theorem scroll_shrinks_front:
  "bindE (make_screen5 0 0 3 2 (CHR ''.'') False False False False) (\<lambda>(out, s).
   bindE (scroll s) (\<lambda>s'.
   Inr (length (m_front s), unat (m_width s' * m_height s'), length (m_front s'), length (m_back s'))))
   = Inr (6, 6, 3, 6)"
  by code_simp

text \<open>
  C2. Claimed: after a full redraw or an incremental flush the back grid equals the front
  grid. On a fresh screen of width 2 and height 1, after \<open>setc(0, 0, 'a')\<close> the flush writes
  the changed cell to the terminal and returns with the back grid still holding the old
  glyphs: the two grids differ after the flush.
\<close>

theorem flush_leaves_back_stale:
  "bindE (make_screen5 0 0 2 1 (CHR ''.'') False False False False) (\<lambda>(out0, s0).
   bindE (setc 0 0 (CHR ''a'') s0) (\<lambda>s1.
   bindE (flush s1) (\<lambda>(out, s2).
   Inr (out, map chr (m_front s2), map chr (m_back s2), m_back s2 = m_front s2))))
   = Inr (ANSI_ESCAPE @ ''1;1Ha'', ''a.'', ''..'', False)"
  by code_simp

text \<open>
  C3. Claimed: \<open>scroll\<close> discards row 0, moves rows 1..h-1 up to 0..h-2, fills the new
  last row h-1 and sets \<open>cursor.y\<close> to h-1. On a screen of width 2 and height 2 holding the
  rows \<open>ab\<close> and \<open>cd\<close>, \<open>scroll\<close> sets \<open>cursor.y\<close> to 1 but leaves a front grid of one
  row of fill glyphs: row \<open>cd\<close> has not moved up to row 0, it is overwritten, and there is
  no row 1.
\<close>

theorem scroll_overwrites_last_row:
  "bindE (make_screen5 0 0 2 2 (CHR ''.'') False False False False) (\<lambda>(out, s0).
   bindE (puts ''abcd'' s0) (\<lambda>s1.
   bindE (scroll s1) (\<lambda>s2.
   Inr (map chr (m_front s1), map chr (m_front s2), m_cursorY s2))))
   = Inr (''abcd'', ''..'', 1)"
  by code_simp

text \<open>
  C4. Claimed: with no front-grid mutation between two consecutive flushes, the second flush
  emits nothing. On a fresh screen of width 1 and height 1, after \<open>setc(0, 0, 'a')\<close> two
  flushes in a row each emit the cursor move and the glyph.
\<close>

theorem second_flush_repeats_output:
  "bindE (make_screen5 0 0 1 1 (CHR ''.'') False False False False) (\<lambda>(out0, s0).
   bindE (setc 0 0 (CHR ''a'') s0) (\<lambda>s1.
   bindE (flush s1) (\<lambda>(out1, s2).
   bindE (flush s2) (\<lambda>(out2, s3).
   Inr (out1, out2, m_front s3 = m_front s2)))))
   = Inr (ANSI_ESCAPE @ ''1;1Ha'', ANSI_ESCAPE @ ''1;1Ha'', True)"
  by code_simp

text \<open>
  C5. Claimed: after \<open>setcursorxy(x, y)\<close> the cursor queries return \<open>x\<close> and \<open>y\<close>.
  \<open>getcursorx\<close> returns the row \<open>y\<close>, whatever \<open>x\<close> was: after \<open>setcursorxy(1, 2)\<close>
  it returns 2.
\<close>

theorem getcursorx_returns_row:
  "getcursorx (setcursorxy x y s) = y \<and> getcursory (setcursorxy x y s) = y \<and>
   getcursorx (setcursorxy 1 2 s) = 2"
  by (simp add: getcursorx_def getcursory_def setcursorxy_def)

text \<open>
  C6. Claimed: indexing a row with an index \<open>i \<ge> height\<close> trips a precondition
  assertion. On a fresh screen of width 3 and height 2 (6 cells), \<open>operator[]\<close> at 2 and at
  5 passes the assertion and returns a span that begins at or after the end of the front
  grid; the assertion fires from index 6 on.
\<close>

theorem operator_index_accepts_row_beyond_height:
  "bindE (make_screen5 0 0 3 2 (CHR ''.'') False False False False) (\<lambda>(out, s).
   Inr (m_height s, length (m_front s), operator_index s 2, operator_index s 5, operator_index s 6))
   = Inr (2, 6, Inr \<lparr>span_begin = 6, span_size = 3\<rparr>, Inr \<lparr>span_begin = 15, span_size = 3\<rparr>,
          Inl AssertFail)"
  by code_simp

text \<open>
  C7. Claimed: the foreground emission writes \<open>ESC [ 38;2; r ; g ; b m\<close> with each channel
  as its decimal numeral, and the background emission the same with 48 for 38. For the colour
  (65, 66, 67) both emissions write \<open>ESC [ 38;2;A;B;C m\<close>: each channel is written as the
  one character with that code, and the background sequence selects 38.
\<close>

theorem color_emission_bytes:
  "ANSI_COLOR_FG (color3 65 66 67) = ANSI_ESCAPE @ ''38;2;A;B;Cm'' \<and>
   ANSI_COLOR_BG (color3 65 66 67) = ANSI_ESCAPE @ ''38;2;A;B;Cm''"
  by code_simp

text \<open>
  C8. Claimed: for every row \<open>y < height\<close>, \<open>puts\<close> of exactly \<open>width\<close> glyphs, none
  of them the newline, with the cursor at \<open>(0, y)\<close> leaves the cursor at \<open>(0, y + 1)\<close>
  with every glyph written into row \<open>y\<close>. On a fresh screen of width 2 and height 2,
  \<open>scroll\<close> leaves the cursor at \<open>(0, 1)\<close>, with \<open>1 < height\<close>, and a front grid of
  2 cells; \<open>puts\<close> of the two glyphs \<open>ef\<close> there writes outside the front grid at the
  first glyph.
\<close>

theorem puts_last_row_after_scroll:
  "bindE (make_screen5 0 0 2 2 (CHR ''.'') False False False False) (\<lambda>(out, s0).
   bindE (scroll s0) (\<lambda>s1.
   Inr (m_cursorX s1, m_cursorY s1, m_width s1, m_height s1, length (m_front s1),
        newline \<in> set ''ef'',
        map_sum id (\<lambda>s2. (m_cursorX s2, m_cursorY s2, map chr (m_front s2))) (puts ''ef'' s1))))
   = Inr (0, 1, 2, 2, 2, False, Inl OutOfBounds)"
  by code_simp

text \<open>
  C9. Whenever \<open>flush\<close> returns, the front grid, the cursor position and the cursor
  attributes are what they were before it. (It returns on every screen within the grid
  invariant, \<open>flush_total\<close>.)
\<close>

theorem flush_frame:
  assumes "flush s = Inr (out, s')"
  shows "m_front s' = m_front s \<and> m_cursorX s' = m_cursorX s \<and> m_cursorY s' = m_cursorY s \<and>
         m_cursorAttribs s' = m_cursorAttribs s"
  using assms by (auto simp: flush_def bindE_eq_Inr)

theorem flush_frame_witness:
  "(case flush example_dirty of
      Inl e \<Rightarrow> False
    | Inr (out, s') \<Rightarrow>
        out = ANSI_ESCAPE @ ''2;2Hx'' \<and>
        m_front s' = m_front example_dirty \<and> m_cursorX s' = m_cursorX example_dirty \<and>
        m_cursorY s' = m_cursorY example_dirty \<and>
        m_cursorAttribs s' = m_cursorAttribs example_dirty)"
proof -
  have h: "flush example_dirty = Inr (ANSI_ESCAPE @ ''2;2Hx'', example_dirty)"
    by code_simp
  show ?thesis
    using flush_frame [OF h] h by simp
qed

text \<open>
  C10. \<open>setcursorxy\<close> stores any pair of arguments as the cursor, unchanged, and changes
  neither the dimensions nor the grids. The documented cursor bounds hold afterwards exactly
  when the arguments were within them, so arguments with \<open>x \<ge> width\<close> or \<open>y > height\<close>
  establish a cursor outside the bounds.
\<close>

theorem setcursorxy_unchecked:
  "m_cursorX (setcursorxy x y s) = x \<and> m_cursorY (setcursorxy x y s) = y \<and>
   m_width (setcursorxy x y s) = m_width s \<and> m_height (setcursorxy x y s) = m_height s \<and>
   m_front (setcursorxy x y s) = m_front s \<and> m_back (setcursorxy x y s) = m_back s \<and>
   spec_cursor_bounds (setcursorxy x y s) = (x < m_width s \<and> y \<le> m_height s)"
  by (simp add: setcursorxy_def spec_cursor_bounds_def)

end
